theory Spec2Isabelle
  imports Main "HOL-Library.AList"
begin

section \<open>Binary tree model (tree-model.js)\<close>

text \<open>
  A \<open>TreeNode\<close> object holds a value and two child links, each either another node or
  \<open>null\<close>.  The constructor \<open>Null\<close> stands for the JavaScript \<open>null\<close> link, so a value
  of this type is "a node or absence", which is what every tree function of the source
  takes.  The render coordinates \<open>x\<close>, \<open>y\<close> are written by the layout function only and
  are read by none of the functions below; they are left out.  Node values are the
  integers of the source's trees.
\<close>

datatype TreeNode = Null | TreeNode (val: int) (left: TreeNode) (right: TreeNode)

definition createDefaultTree :: TreeNode where
  "createDefaultTree =
     TreeNode 4
       (TreeNode 2 (TreeNode 1 Null Null) (TreeNode 3 Null Null))
       (TreeNode 6 (TreeNode 5 Null Null) (TreeNode 7 Null Null))"

text \<open>\<open>getAllNodes\<close> pushes the node, then walks the left and the right subtree.\<close>

fun getAllNodes :: "TreeNode \<Rightarrow> TreeNode list" where
  "getAllNodes Null = []"
| "getAllNodes (TreeNode v l r) = TreeNode v l r # getAllNodes l @ getAllNodes r"

fun countNodes :: "TreeNode \<Rightarrow> nat" where
  "countNodes Null = 0"
| "countNodes (TreeNode v l r) = 1 + countNodes l + countNodes r"


section \<open>Execution step model (execution-step.js)\<close>

datatype StepType = CALL | CHECK_NULL | PROCESS_NODE | RECURSE_LEFT | RECURSE_RIGHT | RETURN

datatype NodeState = UNVISITED | PROCESSING | VISITED | FINISHED

datatype StackAction = PUSH | POP | NONE

record ExecutionStep =
  type :: StepType
  nodeValue :: "int option"
  codeLine :: int
  stackAction :: StackAction
  nodeState :: NodeState
  description :: string

text \<open>
  Template literals print \<open>null\<close> as the word "null" and an integer of magnitude below
  \<open>10^21\<close> in plain decimal, which \<open>numberToString\<close> follows.  From \<open>10^21\<close> on
  JavaScript prints the exponent form (\<open>1e+21\<close>) and \<open>numberToString\<close> does not; the
  strings built with it are the \<open>description\<close> of a step and the \<open>returnAddress\<close> of
  a frame, which no function of the source reads.
\<close>

fun digits :: "nat \<Rightarrow> string" where
  "digits n =
     (if n < 10 then [''0123456789'' ! n]
      else digits (n div 10) @ [''0123456789'' ! (n mod 10)])"

declare digits.simps [simp del]

definition numberToString :: "int \<Rightarrow> string" where
  "numberToString i = (if i < 0 then ''-'' @ digits (nat (- i)) else digits (nat i))"

definition templateValue :: "int option \<Rightarrow> string" where
  "templateValue nv =
     (case nv of None \<Rightarrow> ''null'' | Some v \<Rightarrow> numberToString v)"

definition ExecutionStep_call :: "int option \<Rightarrow> int \<Rightarrow> ExecutionStep" where
  "ExecutionStep_call nv ln =
     \<lparr> type = CALL,
       nodeValue = nv,
       codeLine = ln,
       stackAction = PUSH,
       nodeState = (if nv \<noteq> None then PROCESSING else UNVISITED),
       description =
         (if nv \<noteq> None then ''Call function with node '' @ templateValue nv
          else ''Call function with null'') \<rparr>"

definition ExecutionStep_checkNull :: "int option \<Rightarrow> int \<Rightarrow> ExecutionStep" where
  "ExecutionStep_checkNull nv ln =
     \<lparr> type = CHECK_NULL,
       nodeValue = nv,
       codeLine = ln,
       stackAction = NONE,
       nodeState = (if nv \<noteq> None then PROCESSING else UNVISITED),
       description =
         (if nv \<noteq> None
          then ''Check if node '' @ templateValue nv @ '' is null (false)''
          else ''Check if node is null (true)'') \<rparr>"

definition ExecutionStep_processNode :: "int option \<Rightarrow> int \<Rightarrow> ExecutionStep" where
  "ExecutionStep_processNode nv ln =
     \<lparr> type = PROCESS_NODE,
       nodeValue = nv,
       codeLine = ln,
       stackAction = NONE,
       nodeState = VISITED,
       description = ''Process/print node '' @ templateValue nv \<rparr>"

definition ExecutionStep_recurseLeft :: "int option \<Rightarrow> int \<Rightarrow> ExecutionStep" where
  "ExecutionStep_recurseLeft nv ln =
     \<lparr> type = RECURSE_LEFT,
       nodeValue = nv,
       codeLine = ln,
       stackAction = NONE,
       nodeState = PROCESSING,
       description = ''Recurse to left child of node '' @ templateValue nv \<rparr>"

definition ExecutionStep_recurseRight :: "int option \<Rightarrow> int \<Rightarrow> ExecutionStep" where
  "ExecutionStep_recurseRight nv ln =
     \<lparr> type = RECURSE_RIGHT,
       nodeValue = nv,
       codeLine = ln,
       stackAction = NONE,
       nodeState = PROCESSING,
       description = ''Recurse to right child of node '' @ templateValue nv \<rparr>"

definition ExecutionStep_return :: "int option \<Rightarrow> int \<Rightarrow> bool \<Rightarrow> ExecutionStep" where
  "ExecutionStep_return nv ln isNullReturn =
     \<lparr> type = RETURN,
       nodeValue = nv,
       codeLine = ln,
       stackAction = POP,
       nodeState = (if isNullReturn then UNVISITED else FINISHED),
       description =
         (if nv \<noteq> None then ''Return from node '' @ templateValue nv
          else ''Return from null check'') \<rparr>"

record StackFrame =
  functionName :: string
  frameNodeValue :: "int option"
  returnAddress :: string


section \<open>Traversal generators (traversal-generators.js)\<close>

record LineTable =
  FUNCTION_ENTRY :: int
  NULL_CHECK :: int
  RECURSE_LEFT_LINE :: int
  PROCESS :: int
  RECURSE_RIGHT_LINE :: int
  FUNCTION_EXIT :: int

definition INORDER_LINES :: LineTable where
  "INORDER_LINES =
     \<lparr> FUNCTION_ENTRY = 1, NULL_CHECK = 2, RECURSE_LEFT_LINE = 3, PROCESS = 4,
       RECURSE_RIGHT_LINE = 5, FUNCTION_EXIT = 6 \<rparr>"

definition PREORDER_LINES :: LineTable where
  "PREORDER_LINES =
     \<lparr> FUNCTION_ENTRY = 1, NULL_CHECK = 2, RECURSE_LEFT_LINE = 4, PROCESS = 3,
       RECURSE_RIGHT_LINE = 5, FUNCTION_EXIT = 6 \<rparr>"

definition POSTORDER_LINES :: LineTable where
  "POSTORDER_LINES =
     \<lparr> FUNCTION_ENTRY = 1, NULL_CHECK = 2, RECURSE_LEFT_LINE = 3, PROCESS = 5,
       RECURSE_RIGHT_LINE = 4, FUNCTION_EXIT = 6 \<rparr>"

text \<open>
  Each \<open>_traverse\<close> pushes onto the array it is handed; here it takes the array as
  \<open>acc\<close> and returns it extended.
\<close>

fun InorderGenerator_traverse :: "TreeNode \<Rightarrow> ExecutionStep list \<Rightarrow> ExecutionStep list" where
  "InorderGenerator_traverse Null acc =
     (let acc = acc @ [ExecutionStep_call None (FUNCTION_ENTRY INORDER_LINES)];
          acc = acc @ [ExecutionStep_checkNull None (NULL_CHECK INORDER_LINES)]
      in acc @ [ExecutionStep_return None (NULL_CHECK INORDER_LINES) True])"
| "InorderGenerator_traverse (TreeNode v l r) acc =
     (let acc = acc @ [ExecutionStep_call (Some v) (FUNCTION_ENTRY INORDER_LINES)];
          acc = acc @ [ExecutionStep_checkNull (Some v) (NULL_CHECK INORDER_LINES)];
          acc = acc @ [ExecutionStep_recurseLeft (Some v) (RECURSE_LEFT_LINE INORDER_LINES)];
          acc = InorderGenerator_traverse l acc;
          acc = acc @ [ExecutionStep_processNode (Some v) (PROCESS INORDER_LINES)];
          acc = acc @ [ExecutionStep_recurseRight (Some v) (RECURSE_RIGHT_LINE INORDER_LINES)];
          acc = InorderGenerator_traverse r acc
      in acc @ [ExecutionStep_return (Some v) (FUNCTION_EXIT INORDER_LINES) False])"

fun PreorderGenerator_traverse :: "TreeNode \<Rightarrow> ExecutionStep list \<Rightarrow> ExecutionStep list" where
  "PreorderGenerator_traverse Null acc =
     (let acc = acc @ [ExecutionStep_call None (FUNCTION_ENTRY PREORDER_LINES)];
          acc = acc @ [ExecutionStep_checkNull None (NULL_CHECK PREORDER_LINES)]
      in acc @ [ExecutionStep_return None (NULL_CHECK PREORDER_LINES) True])"
| "PreorderGenerator_traverse (TreeNode v l r) acc =
     (let acc = acc @ [ExecutionStep_call (Some v) (FUNCTION_ENTRY PREORDER_LINES)];
          acc = acc @ [ExecutionStep_checkNull (Some v) (NULL_CHECK PREORDER_LINES)];
          acc = acc @ [ExecutionStep_processNode (Some v) (PROCESS PREORDER_LINES)];
          acc = acc @ [ExecutionStep_recurseLeft (Some v) (RECURSE_LEFT_LINE PREORDER_LINES)];
          acc = PreorderGenerator_traverse l acc;
          acc = acc @ [ExecutionStep_recurseRight (Some v) (RECURSE_RIGHT_LINE PREORDER_LINES)];
          acc = PreorderGenerator_traverse r acc
      in acc @ [ExecutionStep_return (Some v) (FUNCTION_EXIT PREORDER_LINES) False])"

fun PostorderGenerator_traverse :: "TreeNode \<Rightarrow> ExecutionStep list \<Rightarrow> ExecutionStep list" where
  "PostorderGenerator_traverse Null acc =
     (let acc = acc @ [ExecutionStep_call None (FUNCTION_ENTRY POSTORDER_LINES)];
          acc = acc @ [ExecutionStep_checkNull None (NULL_CHECK POSTORDER_LINES)]
      in acc @ [ExecutionStep_return None (NULL_CHECK POSTORDER_LINES) True])"
| "PostorderGenerator_traverse (TreeNode v l r) acc =
     (let acc = acc @ [ExecutionStep_call (Some v) (FUNCTION_ENTRY POSTORDER_LINES)];
          acc = acc @ [ExecutionStep_checkNull (Some v) (NULL_CHECK POSTORDER_LINES)];
          acc = acc @ [ExecutionStep_recurseLeft (Some v) (RECURSE_LEFT_LINE POSTORDER_LINES)];
          acc = PostorderGenerator_traverse l acc;
          acc = acc @ [ExecutionStep_recurseRight (Some v) (RECURSE_RIGHT_LINE POSTORDER_LINES)];
          acc = PostorderGenerator_traverse r acc;
          acc = acc @ [ExecutionStep_processNode (Some v) (PROCESS POSTORDER_LINES)]
      in acc @ [ExecutionStep_return (Some v) (FUNCTION_EXIT POSTORDER_LINES) False])"

definition InorderGenerator_generateSteps :: "TreeNode \<Rightarrow> ExecutionStep list" where
  "InorderGenerator_generateSteps root = InorderGenerator_traverse root []"

definition PreorderGenerator_generateSteps :: "TreeNode \<Rightarrow> ExecutionStep list" where
  "PreorderGenerator_generateSteps root = PreorderGenerator_traverse root []"

definition PostorderGenerator_generateSteps :: "TreeNode \<Rightarrow> ExecutionStep list" where
  "PostorderGenerator_generateSteps root = PostorderGenerator_traverse root []"

text \<open>
  The factory returns a generator object; its only method is \<open>generateSteps\<close>, so the
  object is modelled by that function.
\<close>

definition getTraversalGenerator :: "string \<Rightarrow> TreeNode \<Rightarrow> ExecutionStep list" where
  "getTraversalGenerator ty =
     (if ty = ''preorder'' then PreorderGenerator_generateSteps
      else if ty = ''postorder'' then PostorderGenerator_generateSteps
      else InorderGenerator_generateSteps)"


section \<open>State manager (state-manager.js)\<close>

text \<open>
  \<open>nodeStates\<close> is a JavaScript \<open>Map\<close>: keys are unique, iteration follows insertion
  order, and \<open>set\<close> on a key already present replaces the value in place.  It is
  modelled as an association list written by \<open>AList.update\<close> (which does exactly that)
  and read by \<open>map_of\<close>; \<open>length\<close> is the map's \<open>size\<close>.
\<close>

record AppState =
  currentStepIndex :: int
  callStack :: "StackFrame list"
  nodeStates :: "(int \<times> NodeState) list"
  highlightedLine :: int
  traversalType :: string
  isPlaying :: bool
  animationSpeed :: int
  traversalOutput :: "int list"

definition createInitialState :: AppState where
  "createInitialState =
     \<lparr> currentStepIndex = - 1,
       callStack = [],
       nodeStates = [],
       highlightedLine = 0,
       traversalType = ''inorder'',
       isPlaying = False,
       animationSpeed = 500,
       traversalOutput = [] \<rparr>"

text \<open>The spread \<open>{ ...frame }\<close> copies the three fields of a frame.\<close>

definition copyFrame :: "StackFrame \<Rightarrow> StackFrame" where
  "copyFrame f =
     \<lparr> functionName = functionName f, frameNodeValue = frameNodeValue f,
       returnAddress = returnAddress f \<rparr>"

definition cloneState :: "AppState \<Rightarrow> AppState" where
  "cloneState s =
     \<lparr> currentStepIndex = currentStepIndex s,
       callStack = map copyFrame (callStack s),
       nodeStates = nodeStates s,
       highlightedLine = highlightedLine s,
       traversalType = traversalType s,
       isPlaying = isPlaying s,
       animationSpeed = animationSpeed s,
       traversalOutput = traversalOutput s \<rparr>"

text \<open>
  \<open>statesEqual\<close>: eight early returns on the scalar fields and the three sizes, then
  three loops, each returning \<open>false\<close> at the first difference.
\<close>

definition statesEqual :: "AppState \<Rightarrow> AppState \<Rightarrow> bool" where
  "statesEqual state1 state2 =
     (if currentStepIndex state1 \<noteq> currentStepIndex state2 then False
      else if highlightedLine state1 \<noteq> highlightedLine state2 then False
      else if traversalType state1 \<noteq> traversalType state2 then False
      else if isPlaying state1 \<noteq> isPlaying state2 then False
      else if animationSpeed state1 \<noteq> animationSpeed state2 then False
      else if length (callStack state1) \<noteq> length (callStack state2) then False
      else if length (nodeStates state1) \<noteq> length (nodeStates state2) then False
      else if length (traversalOutput state1) \<noteq> length (traversalOutput state2) then False
      else if list_ex (\<lambda>i. functionName (callStack state1 ! i) \<noteq> functionName (callStack state2 ! i)
                          \<or> frameNodeValue (callStack state1 ! i) \<noteq> frameNodeValue (callStack state2 ! i))
                [0 ..< length (callStack state1)] then False
      else if list_ex (\<lambda>(key, v). map_of (nodeStates state2) key \<noteq> Some v) (nodeStates state1)
           then False
      else if list_ex (\<lambda>i. traversalOutput state1 ! i \<noteq> traversalOutput state2 ! i)
                [0 ..< length (traversalOutput state1)] then False
      else True)"

text \<open>
  The manager holds the live state and the history stack (last element = top).  Its
  subscriber list holds callbacks that are handed a clone of the state after every
  \<open>setState\<close>; they cannot reach the stored state and are not modelled.

  No function of the source writes into a stored array, \<open>Map\<close> or frame: every mutator
  builds a new collection and hands it to \<open>setState\<close>, which copies it again, and
  \<open>pushHistory\<close> stores a clone.  So no two states share a collection that is later
  changed, and the states are modelled as values.
\<close>

record StateManager =
  state :: AppState
  history :: "AppState list"

definition StateManager_new :: StateManager where
  "StateManager_new = \<lparr> state = createInitialState, history = [] \<rparr>"

definition getState :: "StateManager \<Rightarrow> AppState" where
  "getState m = cloneState (state m)"

text \<open>
  \<open>setState\<close> takes a partial state: an object holding some of the eight keys.  A key
  that is absent (\<open>undefined\<close>) is \<open>None\<close> here.
\<close>

record PartialState =
  new_currentStepIndex :: "int option"
  new_callStack :: "StackFrame list option"
  new_nodeStates :: "(int \<times> NodeState) list option"
  new_highlightedLine :: "int option"
  new_traversalType :: "string option"
  new_isPlaying :: "bool option"
  new_animationSpeed :: "int option"
  new_traversalOutput :: "int list option"

definition noKeys :: PartialState where
  "noKeys =
     \<lparr> new_currentStepIndex = None, new_callStack = None, new_nodeStates = None,
       new_highlightedLine = None, new_traversalType = None, new_isPlaying = None,
       new_animationSpeed = None, new_traversalOutput = None \<rparr>"

definition allKeys :: "AppState \<Rightarrow> PartialState" where
  "allKeys s =
     \<lparr> new_currentStepIndex = Some (currentStepIndex s),
       new_callStack = Some (callStack s),
       new_nodeStates = Some (nodeStates s),
       new_highlightedLine = Some (highlightedLine s),
       new_traversalType = Some (traversalType s),
       new_isPlaying = Some (isPlaying s),
       new_animationSpeed = Some (animationSpeed s),
       new_traversalOutput = Some (traversalOutput s) \<rparr>"

definition setState :: "StateManager \<Rightarrow> PartialState \<Rightarrow> StateManager" where
  "setState m newState =
     m \<lparr> state :=
       \<lparr> currentStepIndex =
           (case new_currentStepIndex newState of Some i \<Rightarrow> i | None \<Rightarrow> currentStepIndex (state m)),
         callStack =
           (case new_callStack newState of Some cs \<Rightarrow> map copyFrame cs | None \<Rightarrow> callStack (state m)),
         nodeStates =
           (case new_nodeStates newState of Some ns \<Rightarrow> ns | None \<Rightarrow> nodeStates (state m)),
         highlightedLine =
           (case new_highlightedLine newState of Some l \<Rightarrow> l | None \<Rightarrow> highlightedLine (state m)),
         traversalType =
           (case new_traversalType newState of Some t \<Rightarrow> t | None \<Rightarrow> traversalType (state m)),
         isPlaying =
           (case new_isPlaying newState of Some b \<Rightarrow> b | None \<Rightarrow> isPlaying (state m)),
         animationSpeed =
           (case new_animationSpeed newState of Some a \<Rightarrow> a | None \<Rightarrow> animationSpeed (state m)),
         traversalOutput =
           (case new_traversalOutput newState of Some out \<Rightarrow> out | None \<Rightarrow> traversalOutput (state m)) \<rparr> \<rparr>"

definition pushHistory :: "StateManager \<Rightarrow> StateManager" where
  "pushHistory m = m \<lparr> history := history m @ [cloneState (state m)] \<rparr>"

definition popHistory :: "StateManager \<Rightarrow> AppState option \<times> StateManager" where
  "popHistory m =
     (if length (history m) = 0 then (None, m)
      else (Some (last (history m)), m \<lparr> history := butlast (history m) \<rparr>))"

definition clearHistory :: "StateManager \<Rightarrow> StateManager" where
  "clearHistory m = m \<lparr> history := [] \<rparr>"

definition getHistoryLength :: "StateManager \<Rightarrow> nat" where
  "getHistoryLength m = length (history m)"

definition StateManager_reset :: "StateManager \<Rightarrow> StateManager" where
  "StateManager_reset m = m \<lparr> state := createInitialState, history := [] \<rparr>"

definition setStepIndex :: "StateManager \<Rightarrow> int \<Rightarrow> StateManager" where
  "setStepIndex m index = setState m (noKeys \<lparr> new_currentStepIndex := Some index \<rparr>)"

definition setHighlightedLine :: "StateManager \<Rightarrow> int \<Rightarrow> StateManager" where
  "setHighlightedLine m line = setState m (noKeys \<lparr> new_highlightedLine := Some line \<rparr>)"

definition setTraversalType :: "StateManager \<Rightarrow> string \<Rightarrow> StateManager" where
  "setTraversalType m ty = setState m (noKeys \<lparr> new_traversalType := Some ty \<rparr>)"

definition setPlaying :: "StateManager \<Rightarrow> bool \<Rightarrow> StateManager" where
  "setPlaying m playing = setState m (noKeys \<lparr> new_isPlaying := Some playing \<rparr>)"

definition setAnimationSpeed :: "StateManager \<Rightarrow> int \<Rightarrow> StateManager" where
  "setAnimationSpeed m speed = setState m (noKeys \<lparr> new_animationSpeed := Some speed \<rparr>)"

definition pushCallStack :: "StateManager \<Rightarrow> StackFrame \<Rightarrow> StateManager" where
  "pushCallStack m frame =
     (let newStack = callStack (state m) @ [copyFrame frame]
      in setState m (noKeys \<lparr> new_callStack := Some newStack \<rparr>))"

definition popCallStack :: "StateManager \<Rightarrow> StackFrame option \<times> StateManager" where
  "popCallStack m =
     (if length (callStack (state m)) = 0 then (None, m)
      else let newStack = butlast (callStack (state m));
               popped = last (callStack (state m))
           in (Some popped, setState m (noKeys \<lparr> new_callStack := Some newStack \<rparr>)))"

definition setNodeState :: "StateManager \<Rightarrow> int \<Rightarrow> NodeState \<Rightarrow> StateManager" where
  "setNodeState m nv st =
     (let newNodeStates = AList.update nv st (nodeStates (state m))
      in setState m (noKeys \<lparr> new_nodeStates := Some newNodeStates \<rparr>))"

definition resetNodeStates :: "StateManager \<Rightarrow> int list \<Rightarrow> StateManager" where
  "resetNodeStates m nodeValues =
     (let newNodeStates = foldl (\<lambda>ns v. AList.update v UNVISITED ns) [] nodeValues
      in setState m (noKeys \<lparr> new_nodeStates := Some newNodeStates \<rparr>))"

definition addToOutput :: "StateManager \<Rightarrow> int \<Rightarrow> StateManager" where
  "addToOutput m v =
     (let newOutput = traversalOutput (state m) @ [v]
      in setState m (noKeys \<lparr> new_traversalOutput := Some newOutput \<rparr>))"

definition clearOutput :: "StateManager \<Rightarrow> StateManager" where
  "clearOutput m = setState m (noKeys \<lparr> new_traversalOutput := Some [] \<rparr>)"


section \<open>Execution engine (execution-engine.js)\<close>

text \<open>
  \<open>playIntervalId\<close> is the handle of the running auto-play timer, or \<open>null\<close>.  The model
  stores the timer's period in its place; a firing of the timer is the operation
  \<open>timerTick\<close> below, which may happen at any moment while a timer is set.
\<close>

record ExecutionEngine =
  stateManager :: StateManager
  tree :: TreeNode
  steps :: "ExecutionStep list"
  playIntervalId :: "int option"

text \<open>The constructor replaces an absent tree by the default tree.\<close>

definition ExecutionEngine_new :: "TreeNode \<Rightarrow> ExecutionEngine" where
  "ExecutionEngine_new t =
     \<lparr> stateManager = StateManager_new,
       tree = (if t \<noteq> Null then t else createDefaultTree),
       steps = [],
       playIntervalId = None \<rparr>"

definition pause :: "ExecutionEngine \<Rightarrow> ExecutionEngine" where
  "pause e =
     (let e = (if playIntervalId e \<noteq> None then e \<lparr> playIntervalId := None \<rparr> else e)
      in e \<lparr> stateManager := setPlaying (stateManager e) False \<rparr>)"

definition initialize :: "string \<Rightarrow> ExecutionEngine \<Rightarrow> ExecutionEngine" where
  "initialize ty e =
     (let e = pause e;
          generator = getTraversalGenerator ty;
          e = e \<lparr> steps := generator (tree e) \<rparr>;
          m = StateManager_reset (stateManager e);
          m = setTraversalType m ty;
          nodeValues = map val (getAllNodes (tree e));
          m = resetNodeStates m nodeValues
      in e \<lparr> stateManager := m \<rparr>)"

definition getFunctionName :: "string \<Rightarrow> string" where
  "getFunctionName ty =
     (if ty = ''preorder'' then ''preOrder''
      else if ty = ''postorder'' then ''postOrder''
      else ''inOrder'')"

definition applyStep :: "StateManager \<Rightarrow> ExecutionStep \<Rightarrow> int \<Rightarrow> StateManager" where
  "applyStep m step stepIndex =
     (let m = setStepIndex m stepIndex;
          m = setHighlightedLine m (codeLine step);
          m = (if stackAction step = PUSH then
                 (let ty = traversalType (getState m);
                      fname = getFunctionName ty;
                      frame = \<lparr> functionName = fname,
                                frameNodeValue = nodeValue step,
                                returnAddress = ''line '' @ numberToString (codeLine step) \<rparr>
                  in pushCallStack m frame)
               else if stackAction step = POP then snd (popCallStack m)
               else m);
          m = (case nodeValue step of Some v \<Rightarrow> setNodeState m v (nodeState step) | None \<Rightarrow> m)
      in (case nodeValue step of
            Some v \<Rightarrow> if type step = PROCESS_NODE then addToOutput m v else m
          | None \<Rightarrow> m))"

text \<open>
  \<open>nextStep\<close> reads \<open>this._steps[nextIndex]\<close>.  For a negative index that is
  \<open>undefined\<close>, and \<open>_applyStep\<close> then throws a \<open>TypeError\<close> at \<open>step.codeLine\<close>; the
  model returns the error in that case.
\<close>

datatype error = TypeError

definition nextStep :: "ExecutionEngine \<Rightarrow> error + (bool \<times> ExecutionEngine)" where
  "nextStep e =
     (let st = getState (stateManager e);
          nextIndex = currentStepIndex st + 1
      in if nextIndex \<ge> int (length (steps e)) then Inr (False, e)
         else if nextIndex < 0 then Inl TypeError
         else let m = pushHistory (stateManager e);
                  step = steps e ! nat nextIndex
              in Inr (True, e \<lparr> stateManager := applyStep m step nextIndex \<rparr>))"

definition previousStep :: "ExecutionEngine \<Rightarrow> bool \<times> ExecutionEngine" where
  "previousStep e =
     (let st = getState (stateManager e)
      in if currentStepIndex st < 0 then (False, e)
         else case popHistory (stateManager e) of
                (Some previousState, m) \<Rightarrow>
                  (True, e \<lparr> stateManager := setState m (allKeys previousState) \<rparr>)
              | (None, m) \<Rightarrow> (False, e \<lparr> stateManager := m \<rparr>))"

definition reset :: "ExecutionEngine \<Rightarrow> ExecutionEngine" where
  "reset e =
     (let e = pause e;
          m = StateManager_reset (stateManager e);
          nodeValues = map val (getAllNodes (tree e));
          m = resetNodeStates m nodeValues
      in e \<lparr> stateManager := m \<rparr>)"

definition isAtStart :: "ExecutionEngine \<Rightarrow> bool" where
  "isAtStart e = (currentStepIndex (getState (stateManager e)) < 0)"

definition isAtEnd :: "ExecutionEngine \<Rightarrow> bool" where
  "isAtEnd e = (currentStepIndex (getState (stateManager e)) \<ge> int (length (steps e)) - 1)"

definition getCurrentStep :: "ExecutionEngine \<Rightarrow> ExecutionStep option" where
  "getCurrentStep e =
     (let st = getState (stateManager e)
      in if currentStepIndex st < 0 \<or> currentStepIndex st \<ge> int (length (steps e)) then None
         else Some (steps e ! nat (currentStepIndex st)))"

definition play :: "ExecutionEngine \<Rightarrow> ExecutionEngine" where
  "play e =
     (if playIntervalId e \<noteq> None then e
      else let m = setPlaying (stateManager e) True;
               speed = animationSpeed (getState m)
           in e \<lparr> stateManager := m, playIntervalId := Some speed \<rparr>)"

text \<open>The timer's callback: \<open>if (!this.nextStep()) this.pause()\<close>.\<close>

definition timerTick :: "ExecutionEngine \<Rightarrow> error + ExecutionEngine" where
  "timerTick e =
     (case nextStep e of
        Inl err \<Rightarrow> Inl err
      | Inr (advanced, e') \<Rightarrow> Inr (if \<not> advanced then pause e' else e'))"

definition setSpeed :: "int \<Rightarrow> ExecutionEngine \<Rightarrow> ExecutionEngine" where
  "setSpeed ms e =
     (let e = e \<lparr> stateManager := setAnimationSpeed (stateManager e) ms \<rparr>
      in if isPlaying (getState (stateManager e)) then play (pause e) else e)"


section \<open>Auxiliary notions used by the verification\<close>

text \<open>
  The step sequence of each order, written without the accumulating array.  The lemmas
  \<open>InorderGenerator_traverse_acc\<close>, \<open>PreorderGenerator_traverse_acc\<close> and
  \<open>PostorderGenerator_traverse_acc\<close> show that the generators compute exactly these.
\<close>

fun inorderSteps :: "TreeNode \<Rightarrow> ExecutionStep list" where
  "inorderSteps Null =
     [ExecutionStep_call None 1, ExecutionStep_checkNull None 2, ExecutionStep_return None 2 True]"
| "inorderSteps (TreeNode v l r) =
     [ExecutionStep_call (Some v) 1, ExecutionStep_checkNull (Some v) 2,
      ExecutionStep_recurseLeft (Some v) 3]
     @ inorderSteps l
     @ [ExecutionStep_processNode (Some v) 4, ExecutionStep_recurseRight (Some v) 5]
     @ inorderSteps r
     @ [ExecutionStep_return (Some v) 6 False]"

fun preorderSteps :: "TreeNode \<Rightarrow> ExecutionStep list" where
  "preorderSteps Null =
     [ExecutionStep_call None 1, ExecutionStep_checkNull None 2, ExecutionStep_return None 2 True]"
| "preorderSteps (TreeNode v l r) =
     [ExecutionStep_call (Some v) 1, ExecutionStep_checkNull (Some v) 2,
      ExecutionStep_processNode (Some v) 3, ExecutionStep_recurseLeft (Some v) 4]
     @ preorderSteps l
     @ [ExecutionStep_recurseRight (Some v) 5]
     @ preorderSteps r
     @ [ExecutionStep_return (Some v) 6 False]"

fun postorderSteps :: "TreeNode \<Rightarrow> ExecutionStep list" where
  "postorderSteps Null =
     [ExecutionStep_call None 1, ExecutionStep_checkNull None 2, ExecutionStep_return None 2 True]"
| "postorderSteps (TreeNode v l r) =
     [ExecutionStep_call (Some v) 1, ExecutionStep_checkNull (Some v) 2,
      ExecutionStep_recurseLeft (Some v) 3]
     @ postorderSteps l
     @ [ExecutionStep_recurseRight (Some v) 4]
     @ postorderSteps r
     @ [ExecutionStep_processNode (Some v) 5, ExecutionStep_return (Some v) 6 False]"

text \<open>Counting steps of a type, steps with a stack action, and the net of pushes over pops.\<close>

definition countType :: "StepType \<Rightarrow> ExecutionStep list \<Rightarrow> nat" where
  "countType ty xs = length (filter (\<lambda>s. type s = ty) xs)"

definition countAction :: "StackAction \<Rightarrow> ExecutionStep list \<Rightarrow> nat" where
  "countAction a xs = length (filter (\<lambda>s. stackAction s = a) xs)"

definition runningNet :: "ExecutionStep list \<Rightarrow> int" where
  "runningNet xs = int (countAction PUSH xs) - int (countAction POP xs)"

definition stackDelta :: "ExecutionStep \<Rightarrow> int" where
  "stackDelta x = (if stackAction x = PUSH then 1 else if stackAction x = POP then - 1 else 0)"

definition nonnegFrom :: "int \<Rightarrow> ExecutionStep list \<Rightarrow> bool" where
  "nonnegFrom k xs = (\<forall>n. 0 \<le> k + runningNet (take n xs))"

text \<open>
  \<open>nextStepN n\<close>: \<open>n\<close> calls of \<open>nextStep\<close> that all return \<open>true\<close> (\<open>None\<close> when one of
  them returns \<open>false\<close> or throws).  \<open>previousStepN n\<close>: \<open>n\<close> calls of \<open>previousStep\<close>,
  with the conjunction of their results.
\<close>

fun nextStepN :: "nat \<Rightarrow> ExecutionEngine \<Rightarrow> ExecutionEngine option" where
  "nextStepN 0 e = Some e"
| "nextStepN (Suc n) e =
     (case nextStep e of
        Inr (True, e') \<Rightarrow> nextStepN n e'
      | _ \<Rightarrow> None)"

fun previousStepN :: "nat \<Rightarrow> ExecutionEngine \<Rightarrow> bool \<times> ExecutionEngine" where
  "previousStepN 0 e = (True, e)"
| "previousStepN (Suc n) e =
     (case previousStep e of
        (b, e') \<Rightarrow> (case previousStepN n e' of (bs, e'') \<Rightarrow> (b \<and> bs, e'')))"

text \<open>
  An initialized engine: one built by the constructor, initialized, and then driven by
  any sequence of the engine's operations.
\<close>

inductive initialized :: "ExecutionEngine \<Rightarrow> bool" where
  first_initialize: "initialized (initialize ty (ExecutionEngine_new t))"
| after_initialize: "initialized e \<Longrightarrow> initialized (initialize ty e)"
| after_nextStep: "initialized e \<Longrightarrow> nextStep e = Inr (b, e') \<Longrightarrow> initialized e'"
| after_previousStep: "initialized e \<Longrightarrow> initialized (snd (previousStep e))"
| after_reset: "initialized e \<Longrightarrow> initialized (reset e)"
| after_play: "initialized e \<Longrightarrow> initialized (play e)"
| after_pause: "initialized e \<Longrightarrow> initialized (pause e)"
| after_setSpeed: "initialized e \<Longrightarrow> initialized (setSpeed ms e)"
| after_timerTick:
    "initialized e \<Longrightarrow> playIntervalId e \<noteq> None \<Longrightarrow> timerTick e = Inr e' \<Longrightarrow> initialized e'"

text \<open>
  What every initialized engine satisfies: the cursor of the live state and of every
  snapshot lies in \<open>[-1, length steps - 1]\<close>, and the keys of each node-state map are
  distinct.
\<close>

definition stateOK :: "nat \<Rightarrow> AppState \<Rightarrow> bool" where
  "stateOK len s =
     (- 1 \<le> currentStepIndex s \<and> currentStepIndex s < int len \<and> distinct (map fst (nodeStates s)))"

definition engineOK :: "ExecutionEngine \<Rightarrow> bool" where
  "engineOK e =
     (stateOK (length (steps e)) (state (stateManager e))
      \<and> list_all (stateOK (length (steps e))) (history (stateManager e)))"

text \<open>
  Stepping operations and their observable results, for comparing two runs; and an engine
  with the traversal type of its live state and of every snapshot overwritten.
\<close>

datatype stepOp = NextStep | PreviousStep

fun runOps :: "stepOp list \<Rightarrow> ExecutionEngine \<Rightarrow> error + (bool list \<times> ExecutionEngine)" where
  "runOps [] e = Inr ([], e)"
| "runOps (NextStep # ops) e =
     (case nextStep e of
        Inl err \<Rightarrow> Inl err
      | Inr (b, e') \<Rightarrow>
          (case runOps ops e' of Inl err \<Rightarrow> Inl err | Inr (bs, e'') \<Rightarrow> Inr (b # bs, e'')))"
| "runOps (PreviousStep # ops) e =
     (case previousStep e of
        (b, e') \<Rightarrow>
          (case runOps ops e' of Inl err \<Rightarrow> Inl err | Inr (bs, e'') \<Rightarrow> Inr (b # bs, e'')))"

definition withTraversalType :: "string \<Rightarrow> ExecutionEngine \<Rightarrow> ExecutionEngine" where
  "withTraversalType ty e =
     e \<lparr> stateManager :=
           \<lparr> state = (state (stateManager e)) \<lparr> traversalType := ty \<rparr>,
             history = map (\<lambda>s. s \<lparr> traversalType := ty \<rparr>) (history (stateManager e)) \<rparr> \<rparr>"

definition typeIs :: "string \<Rightarrow> ExecutionEngine \<Rightarrow> bool" where
  "typeIs ty e =
     (traversalType (state (stateManager e)) = ty
      \<and> list_all (\<lambda>s. traversalType s = ty) (history (stateManager e)))"


text \<open>
  The values that occur in a tree, by recursion on the tree itself.
\<close>

fun treeValues :: "TreeNode \<Rightarrow> int set" where
  "treeValues Null = {}"
| "treeValues (TreeNode v l r) = insert v (treeValues l \<union> treeValues r)"

text \<open>
  \<open>applySteps m ss i\<close>: what successive successful \<open>nextStep\<close> calls do to the manager
  when the steps ahead are \<open>ss\<close> and the first of them has index \<open>i\<close>.
  \<open>processedValues\<close>: the node values of the PROCESS_NODE steps of a sequence, in order.
\<close>

fun applySteps :: "StateManager \<Rightarrow> ExecutionStep list \<Rightarrow> int \<Rightarrow> StateManager" where
  "applySteps m [] i = m"
| "applySteps m (s # ss) i = applySteps (applyStep (pushHistory m) s i) ss (i + 1)"

fun processedValues :: "ExecutionStep list \<Rightarrow> int list" where
  "processedValues [] = []"
| "processedValues (s # ss) =
     (case nodeValue s of
        Some v \<Rightarrow> if type s = PROCESS_NODE then v # processedValues ss else processedValues ss
      | None \<Rightarrow> processedValues ss)"


section \<open>The generators and their step sequences\<close>

lemma InorderGenerator_traverse_acc:
  "InorderGenerator_traverse t acc = acc @ inorderSteps t"
  by (induction t arbitrary: acc) (simp_all add: INORDER_LINES_def)

lemma PreorderGenerator_traverse_acc:
  "PreorderGenerator_traverse t acc = acc @ preorderSteps t"
  by (induction t arbitrary: acc) (simp_all add: PREORDER_LINES_def)

lemma PostorderGenerator_traverse_acc:
  "PostorderGenerator_traverse t acc = acc @ postorderSteps t"
  by (induction t arbitrary: acc) (simp_all add: POSTORDER_LINES_def)

lemma getTraversalGenerator_cases:
  "getTraversalGenerator ty t =
     (if ty = ''preorder'' then preorderSteps t
      else if ty = ''postorder'' then postorderSteps t
      else inorderSteps t)"
  by (simp add: getTraversalGenerator_def InorderGenerator_generateSteps_def
        PreorderGenerator_generateSteps_def PostorderGenerator_generateSteps_def
        InorderGenerator_traverse_acc PreorderGenerator_traverse_acc
        PostorderGenerator_traverse_acc)

lemmas step_constructor_defs =
  ExecutionStep_call_def ExecutionStep_checkNull_def ExecutionStep_processNode_def
  ExecutionStep_recurseLeft_def ExecutionStep_recurseRight_def ExecutionStep_return_def

subsection \<open>Counting\<close>

lemma countType_Nil [simp]: "countType ty [] = 0"
  by (simp add: countType_def)

lemma countType_Cons [simp]:
  "countType ty (x # xs) = (if type x = ty then 1 else 0) + countType ty xs"
  by (simp add: countType_def)

lemma countType_append [simp]: "countType ty (xs @ ys) = countType ty xs + countType ty ys"
  by (simp add: countType_def)

lemma runningNet_Nil [simp]: "runningNet [] = 0"
  by (simp add: runningNet_def countAction_def)

lemma runningNet_Cons [simp]: "runningNet (x # xs) = stackDelta x + runningNet xs"
  by (simp add: runningNet_def countAction_def stackDelta_def)

lemma runningNet_append [simp]: "runningNet (xs @ ys) = runningNet xs + runningNet ys"
  by (simp add: runningNet_def countAction_def)

lemma nonnegFrom_Nil [simp]: "nonnegFrom k [] = (0 \<le> k)"
  by (simp add: nonnegFrom_def)

lemma nonnegFrom_Cons [simp]:
  "nonnegFrom k (x # xs) = (0 \<le> k \<and> nonnegFrom (k + stackDelta x) xs)"
proof
  assume a: "nonnegFrom k (x # xs)"
  have "0 \<le> k"
    using a [unfolded nonnegFrom_def, rule_format, of 0] by simp
  moreover have "0 \<le> k + stackDelta x + runningNet (take n xs)" for n
    using a [unfolded nonnegFrom_def, rule_format, of "Suc n"] by (simp add: add.assoc)
  ultimately show "0 \<le> k \<and> nonnegFrom (k + stackDelta x) xs"
    by (simp add: nonnegFrom_def)
next
  assume a: "0 \<le> k \<and> nonnegFrom (k + stackDelta x) xs"
  have "0 \<le> k + runningNet (take n (x # xs))" for n
  proof (cases n)
    case 0
    with a show ?thesis by simp
  next
    case (Suc m)
    from a have "0 \<le> k + stackDelta x + runningNet (take m xs)"
      by (simp add: nonnegFrom_def)
    with Suc show ?thesis by (simp add: add.assoc)
  qed
  then show "nonnegFrom k (x # xs)"
    by (simp add: nonnegFrom_def)
qed

lemma nonnegFrom_append:
  "nonnegFrom k xs \<Longrightarrow> nonnegFrom (k + runningNet xs) ys \<Longrightarrow> nonnegFrom k (xs @ ys)"
  by (induction xs arbitrary: k) (auto simp: add.assoc)

lemma stackDelta_constructors [simp]:
  "stackDelta (ExecutionStep_call nv ln) = 1"
  "stackDelta (ExecutionStep_checkNull nv ln) = 0"
  "stackDelta (ExecutionStep_processNode nv ln) = 0"
  "stackDelta (ExecutionStep_recurseLeft nv ln) = 0"
  "stackDelta (ExecutionStep_recurseRight nv ln) = 0"
  "stackDelta (ExecutionStep_return nv ln b) = - 1"
  by (simp_all add: stackDelta_def step_constructor_defs)

lemma type_constructors [simp]:
  "type (ExecutionStep_call nv ln) = CALL"
  "type (ExecutionStep_checkNull nv ln) = CHECK_NULL"
  "type (ExecutionStep_processNode nv ln) = PROCESS_NODE"
  "type (ExecutionStep_recurseLeft nv ln) = RECURSE_LEFT"
  "type (ExecutionStep_recurseRight nv ln) = RECURSE_RIGHT"
  "type (ExecutionStep_return nv ln b) = RETURN"
  by (simp_all add: step_constructor_defs)

lemma inorderSteps_net: "runningNet (inorderSteps t) = 0"
  by (induction t) simp_all

lemma preorderSteps_net: "runningNet (preorderSteps t) = 0"
  by (induction t) simp_all

lemma postorderSteps_net: "runningNet (postorderSteps t) = 0"
  by (induction t) simp_all

lemma inorderSteps_nonneg: "0 \<le> k \<Longrightarrow> nonnegFrom k (inorderSteps t)"
  by (induction t arbitrary: k) (simp_all add: nonnegFrom_append inorderSteps_net)

lemma preorderSteps_nonneg: "0 \<le> k \<Longrightarrow> nonnegFrom k (preorderSteps t)"
  by (induction t arbitrary: k) (simp_all add: nonnegFrom_append preorderSteps_net)

lemma postorderSteps_nonneg: "0 \<le> k \<Longrightarrow> nonnegFrom k (postorderSteps t)"
  by (induction t arbitrary: k) (simp_all add: nonnegFrom_append postorderSteps_net)

lemma inorderSteps_count:
  "countType CALL (inorderSteps t) = 2 * countNodes t + 1"
  "countType RETURN (inorderSteps t) = 2 * countNodes t + 1"
  by (induction t) simp_all

lemma preorderSteps_count:
  "countType CALL (preorderSteps t) = 2 * countNodes t + 1"
  "countType RETURN (preorderSteps t) = 2 * countNodes t + 1"
  by (induction t) simp_all

lemma postorderSteps_count:
  "countType CALL (postorderSteps t) = 2 * countNodes t + 1"
  "countType RETURN (postorderSteps t) = 2 * countNodes t + 1"
  by (induction t) simp_all

lemma generated_count:
  "countType CALL (getTraversalGenerator ty t) = 2 * countNodes t + 1"
  "countType RETURN (getTraversalGenerator ty t) = 2 * countNodes t + 1"
  by (simp_all add: getTraversalGenerator_cases inorderSteps_count preorderSteps_count
        postorderSteps_count)

lemma generated_net: "runningNet (getTraversalGenerator ty t) = 0"
  by (simp add: getTraversalGenerator_cases inorderSteps_net preorderSteps_net postorderSteps_net)

lemma generated_nonneg: "nonnegFrom 0 (getTraversalGenerator ty t)"
  by (simp add: getTraversalGenerator_cases inorderSteps_nonneg preorderSteps_nonneg
        postorderSteps_nonneg)

text \<open>
  Claim C1 (stack balance).  For every tree, the absent root included, and every
  traversal type tag (the three orders and any other tag, which selects inorder), the
  generated step sequence has as many CALL steps as RETURN steps; for every \<open>n\<close> the
  first \<open>n\<close> steps hold at least as many PUSH actions as POP actions; and over the whole
  sequence the two counts are equal.
\<close>
theorem stack_balance:
  "countType CALL (getTraversalGenerator ty root) = countType RETURN (getTraversalGenerator ty root)
   \<and> (\<forall>n. 0 \<le> int (countAction PUSH (take n (getTraversalGenerator ty root)))
              - int (countAction POP (take n (getTraversalGenerator ty root))))
   \<and> int (countAction PUSH (getTraversalGenerator ty root))
       - int (countAction POP (getTraversalGenerator ty root)) = 0"
proof -
  have "0 \<le> runningNet (take n (getTraversalGenerator ty root))" for n
    using generated_nonneg [of ty root] by (simp add: nonnegFrom_def)
  moreover have "runningNet (getTraversalGenerator ty root) = 0"
    by (rule generated_net)
  ultimately show ?thesis
    by (simp add: generated_count runningNet_def)
qed

text \<open>
  Claim C4 (number of calls).  For every tree with \<open>N\<close> real nodes and every traversal
  order, the generated sequence holds exactly \<open>2 * N + 1\<close> CALL steps and exactly
  \<open>2 * N + 1\<close> RETURN steps; the default tree has 7 nodes, so both counts are 15 there.
\<close>
theorem call_return_count:
  "countType CALL (getTraversalGenerator ty root) = 2 * countNodes root + 1
   \<and> countType RETURN (getTraversalGenerator ty root) = 2 * countNodes root + 1
   \<and> countNodes createDefaultTree = 7
   \<and> countType CALL (getTraversalGenerator ty createDefaultTree) = 15
   \<and> countType RETURN (getTraversalGenerator ty createDefaultTree) = 15"
proof -
  have "countNodes createDefaultTree = 7"
    by (simp add: createDefaultTree_def)
  then show ?thesis
    by (simp add: generated_count)
qed

text \<open>
  Claim C8 (constructor policy).  A step built by one of the six constructors has stack
  action PUSH exactly when its type is CALL, POP exactly when its type is RETURN, and NONE
  for every other type.  The node state is fixed per constructor: \<open>call\<close> and
  \<open>checkNull\<close> give PROCESSING for a present node value and UNVISITED for an absent
  one, \<open>processNode\<close> gives VISITED, \<open>recurseLeft\<close> and \<open>recurseRight\<close> give
  PROCESSING, and \<open>return\<close> gives UNVISITED when \<open>isNullReturn\<close> is set and FINISHED
  otherwise.
\<close>
theorem constructor_policy:
  assumes "s \<in> {ExecutionStep_call nv ln, ExecutionStep_checkNull nv ln,
                 ExecutionStep_processNode nv ln, ExecutionStep_recurseLeft nv ln,
                 ExecutionStep_recurseRight nv ln, ExecutionStep_return nv ln isNullReturn}"
  shows "(stackAction s = PUSH \<longleftrightarrow> type s = CALL)
       \<and> (stackAction s = POP \<longleftrightarrow> type s = RETURN)
       \<and> (type s \<noteq> CALL \<and> type s \<noteq> RETURN \<longrightarrow> stackAction s = NONE)
       \<and> nodeState (ExecutionStep_call nv ln) = (if nv \<noteq> None then PROCESSING else UNVISITED)
       \<and> nodeState (ExecutionStep_checkNull nv ln) = (if nv \<noteq> None then PROCESSING else UNVISITED)
       \<and> nodeState (ExecutionStep_processNode nv ln) = VISITED
       \<and> nodeState (ExecutionStep_recurseLeft nv ln) = PROCESSING
       \<and> nodeState (ExecutionStep_recurseRight nv ln) = PROCESSING
       \<and> nodeState (ExecutionStep_return nv ln isNullReturn)
           = (if isNullReturn then UNVISITED else FINISHED)"
  using assms by (auto simp: step_constructor_defs)

theorem constructor_policy_witness:
  "ExecutionStep_return None 2 True
     \<in> {ExecutionStep_call None 2, ExecutionStep_checkNull None 2,
        ExecutionStep_processNode None 2, ExecutionStep_recurseLeft None 2,
        ExecutionStep_recurseRight None 2, ExecutionStep_return None 2 True}
   \<and> stackAction (ExecutionStep_return None 2 True) = POP
   \<and> type (ExecutionStep_return None 2 True) = RETURN
   \<and> nodeState (ExecutionStep_return None 2 True) = UNVISITED
   \<and> nodeState (ExecutionStep_call None 2) = UNVISITED"
  using constructor_policy [of "ExecutionStep_return None 2 True" None 2 True]
  by simp

section \<open>The state manager and the engine\<close>

lemma copyFrame_id [simp]: "copyFrame f = f"
  by (simp add: copyFrame_def)

lemma map_copyFrame_id [simp]: "map copyFrame cs = cs"
  by (induction cs) simp_all

lemma cloneState_id [simp]: "cloneState s = s"
  by (simp add: cloneState_def)

lemma getState_state [simp]: "getState m = state m"
  by (simp add: getState_def)

lemmas manager_defs =
  setState_def setStepIndex_def setHighlightedLine_def setTraversalType_def setPlaying_def
  setAnimationSpeed_def pushCallStack_def popCallStack_def setNodeState_def resetNodeStates_def
  addToOutput_def noKeys_def allKeys_def pushHistory_def popHistory_def StateManager_reset_def

lemma setState_allKeys [simp]: "setState m (allKeys s) = m \<lparr> state := s \<rparr>"
  by (simp add: setState_def allKeys_def)

lemma applyStep_history [simp]: "history (applyStep m step i) = history m"
  by (simp add: applyStep_def manager_defs Let_def split: option.split)

lemma applyStep_state:
  "state (applyStep m step i) =
     (state m)
       \<lparr> currentStepIndex := i,
         highlightedLine := codeLine step,
         callStack :=
           (if stackAction step = PUSH then
              callStack (state m)
                @ [\<lparr> functionName = getFunctionName (traversalType (state m)),
                      frameNodeValue = nodeValue step,
                      returnAddress = ''line '' @ numberToString (codeLine step) \<rparr>]
            else if stackAction step = POP then butlast (callStack (state m))
            else callStack (state m)),
         nodeStates :=
           (case nodeValue step of
              Some v \<Rightarrow> AList.update v (nodeState step) (nodeStates (state m))
            | None \<Rightarrow> nodeStates (state m)),
         traversalOutput :=
           (case nodeValue step of
              Some v \<Rightarrow> if type step = PROCESS_NODE then traversalOutput (state m) @ [v]
                        else traversalOutput (state m)
            | None \<Rightarrow> traversalOutput (state m)) \<rparr>"
  by (cases "callStack (state m) = []")
     (simp_all add: applyStep_def manager_defs Let_def split: option.split)

lemma nextStep_True:
  "nextStep e = Inr (True, e') \<longleftrightarrow>
     (0 \<le> currentStepIndex (state (stateManager e)) + 1
      \<and> currentStepIndex (state (stateManager e)) + 1 < int (length (steps e))
      \<and> e' = e \<lparr> stateManager :=
                    applyStep (pushHistory (stateManager e))
                      (steps e ! nat (currentStepIndex (state (stateManager e)) + 1))
                      (currentStepIndex (state (stateManager e)) + 1) \<rparr>)"
  by (auto simp: nextStep_def Let_def)

lemma nextStep_False:
  "nextStep e = Inr (False, e') \<longleftrightarrow>
     (int (length (steps e)) \<le> currentStepIndex (state (stateManager e)) + 1 \<and> e' = e)"
  by (auto simp: nextStep_def Let_def)

lemma nextStep_error:
  "nextStep e = Inl err \<longleftrightarrow>
     (currentStepIndex (state (stateManager e)) + 1 < int (length (steps e))
      \<and> currentStepIndex (state (stateManager e)) + 1 < 0)"
  by (cases err) (auto simp: nextStep_def Let_def)

text \<open>
  Claim C7 (synchronization).  After a successful \<open>nextStep\<close>, the step just applied is
  the engine's current step; the state's highlighted line is that step's code line, and if
  the step carries a node value, the node-state map holds the step's node state under
  that value.
\<close>
theorem synchronization:
  assumes "nextStep e = Inr (True, e')"
  shows "\<exists>step. getCurrentStep e' = Some step
           \<and> step = steps e ! nat (currentStepIndex (getState (stateManager e)) + 1)
           \<and> highlightedLine (getState (stateManager e')) = codeLine step
           \<and> (\<forall>v. nodeValue step = Some v \<longrightarrow>
                 map_of (nodeStates (getState (stateManager e'))) v = Some (nodeState step))"
  using assms
  by (auto simp: nextStep_True getCurrentStep_def applyStep_state update_conv')

lemma map_of_resetNodeStates:
  "map_of (foldl (\<lambda>ns v. AList.update v UNVISITED ns) acc vs) k =
     (if k \<in> set vs then Some UNVISITED else map_of acc k)"
  by (induction vs arbitrary: acc) (simp_all add: update_conv')

lemma distinct_resetNodeStates:
  "distinct (map fst acc) \<Longrightarrow>
   distinct (map fst (foldl (\<lambda>ns v. AList.update v UNVISITED ns) acc vs))"
  by (induction vs arbitrary: acc) (simp_all add: distinct_update)

lemma reset_stateManager:
  "stateManager (reset e) =
     \<lparr> state = createInitialState
         \<lparr> nodeStates :=
             foldl (\<lambda>ns v. AList.update v UNVISITED ns) [] (map val (getAllNodes (tree e))) \<rparr>,
       history = [] \<rparr>"
  by (simp add: reset_def pause_def manager_defs Let_def createInitialState_def)

lemma reset_fields [simp]:
  "tree (reset e) = tree e" "steps (reset e) = steps e" "playIntervalId (reset e) = None"
  by (simp_all add: reset_def pause_def Let_def)

lemma getAllNodes_values: "val ` set (getAllNodes t) = treeValues t"
  by (induction t) auto

text \<open>
  Claim C9 (reset completeness).  Whatever state the engine is in, \<open>reset\<close> leaves it with
  step index \<open>-1\<close>, an empty call stack, a node-state map that holds UNVISITED for
  exactly the values that occur in the engine's tree, highlighted line 0, an empty output
  and an empty history; the tree and the generated steps are unchanged.
\<close>
theorem reset_completeness:
  "currentStepIndex (getState (stateManager (reset e))) = - 1
   \<and> callStack (getState (stateManager (reset e))) = []
   \<and> (\<forall>v. map_of (nodeStates (getState (stateManager (reset e)))) v =
            (if v \<in> treeValues (tree e) then Some UNVISITED else None))
   \<and> highlightedLine (getState (stateManager (reset e))) = 0
   \<and> traversalOutput (getState (stateManager (reset e))) = []
   \<and> history (stateManager (reset e)) = []
   \<and> getHistoryLength (stateManager (reset e)) = 0
   \<and> tree (reset e) = tree e
   \<and> steps (reset e) = steps e"
proof -
  have "set (map val (getAllNodes (tree e))) = treeValues (tree e)"
    using getAllNodes_values [of "tree e"] by simp
  then show ?thesis
    by (simp add: reset_stateManager createInitialState_def map_of_resetNodeStates
          getHistoryLength_def del: set_map)
qed

subsection \<open>What initialized engines satisfy\<close>

lemma pause_fields [simp]:
  "tree (pause e) = tree e" "steps (pause e) = steps e" "playIntervalId (pause e) = None"
  "history (stateManager (pause e)) = history (stateManager e)"
  "state (stateManager (pause e)) = (state (stateManager e)) \<lparr> isPlaying := False \<rparr>"
  by (simp_all add: pause_def manager_defs Let_def)

lemma play_fields [simp]:
  "tree (play e) = tree e" "steps (play e) = steps e"
  "history (stateManager (play e)) = history (stateManager e)"
  "state (stateManager (play e)) =
     (if playIntervalId e \<noteq> None then state (stateManager e)
      else (state (stateManager e)) \<lparr> isPlaying := True \<rparr>)"
  by (simp_all add: play_def manager_defs Let_def)

lemma setSpeed_fields [simp]:
  "tree (setSpeed ms e) = tree e" "steps (setSpeed ms e) = steps e"
  "history (stateManager (setSpeed ms e)) = history (stateManager e)"
  "currentStepIndex (state (stateManager (setSpeed ms e))) = currentStepIndex (state (stateManager e))"
  "nodeStates (state (stateManager (setSpeed ms e))) = nodeStates (state (stateManager e))"
  by (simp_all add: setSpeed_def manager_defs Let_def)

lemma initialize_stateManager:
  "stateManager (initialize ty e) =
     \<lparr> state = createInitialState
         \<lparr> traversalType := ty,
           nodeStates :=
             foldl (\<lambda>ns v. AList.update v UNVISITED ns) [] (map val (getAllNodes (tree e))) \<rparr>,
       history = [] \<rparr>"
  by (simp add: initialize_def pause_def manager_defs Let_def createInitialState_def)

lemma initialize_fields [simp]:
  "tree (initialize ty e) = tree e"
  "steps (initialize ty e) = getTraversalGenerator ty (tree e)"
  "playIntervalId (initialize ty e) = None"
  by (simp_all add: initialize_def pause_def Let_def)

lemma engineOK_initialize: "engineOK (initialize ty e)"
  by (simp add: engineOK_def stateOK_def initialize_stateManager createInitialState_def
        distinct_resetNodeStates)

lemma engineOK_reset: "engineOK (reset e)"
  by (simp add: engineOK_def stateOK_def reset_stateManager createInitialState_def
        distinct_resetNodeStates)

lemma engineOK_pause: "engineOK e \<Longrightarrow> engineOK (pause e)"
  by (simp add: engineOK_def stateOK_def)

lemma engineOK_play: "engineOK e \<Longrightarrow> engineOK (play e)"
  by (simp add: engineOK_def stateOK_def)

lemma engineOK_setSpeed: "engineOK e \<Longrightarrow> engineOK (setSpeed ms e)"
  by (simp add: engineOK_def stateOK_def)

lemma engineOK_nextStep:
  assumes "engineOK e" and "nextStep e = Inr (b, e')"
  shows "engineOK e'"
proof (cases b)
  case True
  with assms show ?thesis
    by (auto simp: nextStep_True engineOK_def stateOK_def applyStep_state pushHistory_def
          distinct_update split: option.split)
next
  case False
  with assms show ?thesis
    by (simp add: nextStep_False)
qed

lemma engineOK_previousStep:
  assumes "engineOK e"
  shows "engineOK (snd (previousStep e))"
proof (cases "history (stateManager e) = []")
  case True
  with assms show ?thesis
    by (simp add: previousStep_def popHistory_def Let_def engineOK_def)
next
  case False
  then obtain hs h where hs: "history (stateManager e) = hs @ [h]"
    by (metis rev_exhaust)
  with assms show ?thesis
    by (simp add: previousStep_def popHistory_def Let_def engineOK_def)
qed

lemma engineOK_timerTick:
  assumes "engineOK e" and "timerTick e = Inr e'"
  shows "engineOK e'"
proof (cases "nextStep e")
  case (Inl err)
  with assms show ?thesis by (simp add: timerTick_def)
next
  case (Inr p)
  obtain b e1 where p: "p = (b, e1)" by (cases p)
  with Inr assms(1) have "engineOK e1" by (simp add: engineOK_nextStep)
  then have "engineOK (pause e1)" by (rule engineOK_pause)
  with Inr p assms(2) \<open>engineOK e1\<close> show ?thesis
    by (auto simp: timerTick_def split: if_splits)
qed

lemma initialized_engineOK: "initialized e \<Longrightarrow> engineOK e"
proof (induction rule: initialized.induct)
  case (first_initialize ty t)
  show ?case by (rule engineOK_initialize)
next
  case (after_initialize e ty)
  show ?case by (rule engineOK_initialize)
next
  case (after_nextStep e b e')
  then show ?case by (simp add: engineOK_nextStep)
next
  case (after_previousStep e)
  then show ?case by (simp add: engineOK_previousStep)
next
  case (after_reset e)
  show ?case by (rule engineOK_reset)
next
  case (after_play e)
  then show ?case by (simp add: engineOK_play)
next
  case (after_pause e)
  then show ?case by (simp add: engineOK_pause)
next
  case (after_setSpeed e ms)
  then show ?case by (simp add: engineOK_setSpeed)
next
  case (after_timerTick e e')
  then show ?case by (simp add: engineOK_timerTick)
qed

lemma initialized_nextStep_no_error: "initialized e \<Longrightarrow> nextStep e \<noteq> Inl err"
  by (drule initialized_engineOK) (simp add: nextStep_error engineOK_def stateOK_def)

text \<open>
  Claim C5 (boundary of \<open>nextStep\<close>).  For an initialized engine: when the cursor is at
  the last generated step, or there are no steps, \<open>nextStep\<close> returns \<open>false\<close> and the
  engine (its state and its history) is unchanged; otherwise it returns \<open>true\<close> and the
  cursor has advanced by exactly one.
\<close>
theorem nextStep_boundary:
  assumes "initialized e"
  shows "if currentStepIndex (getState (stateManager e)) = int (length (steps e)) - 1
            \<or> steps e = []
         then nextStep e = Inr (False, e)
         else (\<exists>e'. nextStep e = Inr (True, e')
                 \<and> currentStepIndex (getState (stateManager e'))
                     = currentStepIndex (getState (stateManager e)) + 1)"
proof -
  from assms have ok: "stateOK (length (steps e)) (state (stateManager e))"
    by (drule_tac initialized_engineOK) (simp add: engineOK_def)
  show ?thesis
  proof (cases "currentStepIndex (state (stateManager e)) = int (length (steps e)) - 1
                  \<or> steps e = []")
    case True
    with ok have "int (length (steps e)) \<le> currentStepIndex (state (stateManager e)) + 1"
      by (auto simp: stateOK_def)
    with True show ?thesis by (simp add: nextStep_False)
  next
    case False
    with ok have "0 \<le> currentStepIndex (state (stateManager e)) + 1"
      and "currentStepIndex (state (stateManager e)) + 1 < int (length (steps e))"
      by (auto simp: stateOK_def)
    with False show ?thesis by (simp add: nextStep_True applyStep_state)
  qed
qed

theorem nextStep_boundary_witness:
  "initialized (initialize ''inorder'' (ExecutionEngine_new Null))
   \<and> (\<exists>e'. nextStep (initialize ''inorder'' (ExecutionEngine_new Null)) = Inr (True, e')
         \<and> currentStepIndex (getState (stateManager e')) = 0)"
proof -
  let ?e = "initialize ''inorder'' (ExecutionEngine_new Null)"
  have i: "initialized ?e"
    by (rule first_initialize)
  have idx: "currentStepIndex (state (stateManager ?e)) = - 1"
    by (simp add: initialize_stateManager createInitialState_def)
  have len: "length (steps ?e) = 66"
    by (simp add: getTraversalGenerator_cases ExecutionEngine_new_def createDefaultTree_def)
  have ne: "steps ?e \<noteq> []"
    using len by auto
  from nextStep_boundary [OF i] idx len ne i show ?thesis
    by simp
qed

subsection \<open>Undoing forward steps\<close>

lemma previousStep_nextStep:
  assumes "nextStep e = Inr (True, e')"
  shows "previousStep e' = (True, e)"
  using assms
  by (simp add: nextStep_True previousStep_def popHistory_def pushHistory_def Let_def
        applyStep_state)

lemma nextStepN_Suc_last:
  "nextStepN (Suc n) e =
     (case nextStepN n e of
        None \<Rightarrow> None
      | Some e1 \<Rightarrow> (case nextStep e1 of Inr (True, e') \<Rightarrow> Some e' | _ \<Rightarrow> None))"
proof (induction n arbitrary: e)
  case 0
  show ?case by (simp split: sum.split prod.split bool.split)
next
  case (Suc n)
  show ?case
  proof (cases "nextStep e")
    case (Inl err)
    then show ?thesis by simp
  next
    case (Inr p)
    obtain b e1 where p: "p = (b, e1)" by (cases p)
    show ?thesis
    proof (cases b)
      case True
      with Inr p have "nextStepN (Suc (Suc n)) e = nextStepN (Suc n) e1" by simp
      also have "\<dots> = (case nextStepN n e1 of
                          None \<Rightarrow> None
                        | Some e2 \<Rightarrow> (case nextStep e2 of Inr (True, e') \<Rightarrow> Some e' | _ \<Rightarrow> None))"
        by (rule Suc.IH)
      also from Inr p True have "nextStepN n e1 = nextStepN (Suc n) e" by simp
      finally show ?thesis .
    next
      case False
      with Inr p show ?thesis by simp
    qed
  qed
qed

lemma previousStepN_nextStepN:
  "nextStepN n e = Some e' \<Longrightarrow> previousStepN n e' = (True, e)"
proof (induction n arbitrary: e')
  case 0
  then show ?case by simp
next
  case (Suc n)
  from Suc.prems obtain e1 where e1: "nextStepN n e = Some e1"
    and last: "nextStep e1 = Inr (True, e')"
    by (auto simp: nextStepN_Suc_last simp del: nextStepN.simps
          split: option.splits sum.splits prod.splits bool.splits)
  from last have "previousStep e' = (True, e1)" by (rule previousStep_nextStep)
  moreover from e1 have "previousStepN n e1 = (True, e)" by (rule Suc.IH)
  ultimately show ?case by simp
qed

lemma statesEqual_refl:
  assumes "distinct (map fst (nodeStates s))"
  shows "statesEqual s s"
proof -
  have "\<not> list_ex (\<lambda>(key, v). map_of (nodeStates s) key \<noteq> Some v) (nodeStates s)"
    using assms by (auto simp: list_ex_iff)
  then show ?thesis
    by (simp add: statesEqual_def list_ex_iff)
qed

text \<open>
  Claim C2 (undo exactness).  For an initialized engine and \<open>N\<close> not above the number of
  generated steps: after \<open>N\<close> successful \<open>nextStep\<close> calls, \<open>N\<close> calls of
  \<open>previousStep\<close> all succeed and leave a state that \<open>statesEqual\<close> accepts as equal
  to the state before the first \<open>nextStep\<close>.
\<close>
theorem undo_exactness:
  assumes "initialized e" and "N \<le> length (steps e)" and "nextStepN N e = Some e'"
  shows "fst (previousStepN N e') = True
       \<and> statesEqual (getState (stateManager (snd (previousStepN N e'))))
           (getState (stateManager e))"
proof -
  from assms(3) have undone: "previousStepN N e' = (True, e)"
    by (rule previousStepN_nextStepN)
  from assms(1) have "distinct (map fst (nodeStates (state (stateManager e))))"
    by (drule_tac initialized_engineOK) (simp add: engineOK_def stateOK_def)
  then have "statesEqual (state (stateManager e)) (state (stateManager e))"
    by (rule statesEqual_refl)
  with undone show ?thesis by simp
qed

subsection \<open>Running forward\<close>

lemma nextStepN_applySteps:
  "currentStepIndex (state (stateManager e)) = int k - 1 \<Longrightarrow> k + n \<le> length (steps e) \<Longrightarrow>
   nextStepN n e =
     Some (e \<lparr> stateManager := applySteps (stateManager e) (take n (drop k (steps e))) (int k) \<rparr>)"
proof (induction n arbitrary: e k)
  case 0
  show ?case by simp
next
  case (Suc n)
  let ?e1 = "e \<lparr> stateManager := applyStep (pushHistory (stateManager e)) (steps e ! k) (int k) \<rparr>"
  from Suc.prems have next1: "nextStep e = Inr (True, ?e1)"
    by (simp add: nextStep_True)
  have idx1: "currentStepIndex (state (stateManager ?e1)) = int (Suc k) - 1"
    by (simp add: applyStep_state)
  from Suc.prems have len1: "Suc k + n \<le> length (steps ?e1)"
    by simp
  from Suc.prems have "k < length (steps e)" by simp
  then have split: "take (Suc n) (drop k (steps e)) = steps e ! k # take n (drop (Suc k) (steps e))"
    by (simp add: Cons_nth_drop_Suc [symmetric])
  have "nextStepN (Suc n) e = nextStepN n ?e1"
    using next1 by simp
  also have "\<dots> = Some (?e1 \<lparr> stateManager :=
                 applySteps (stateManager ?e1) (take n (drop (Suc k) (steps ?e1))) (int (Suc k)) \<rparr>)"
    using idx1 len1 by (rule Suc.IH)
  finally show ?case
    by (simp add: split add.commute)
qed

lemma applySteps_output:
  "traversalOutput (state (applySteps m ss i)) = traversalOutput (state m) @ processedValues ss"
  by (induction ss arbitrary: m i)
     (simp_all add: applyStep_state pushHistory_def split: option.split)

lemma applySteps_index:
  "currentStepIndex (state (applySteps m ss i)) =
     (if ss = [] then currentStepIndex (state m) else i + int (length ss) - 1)"
  by (induction ss arbitrary: m i) (simp_all add: applyStep_state)

lemma run_to_end:
  assumes "currentStepIndex (state (stateManager e)) = - 1"
  shows "nextStepN (length (steps e)) e =
           Some (e \<lparr> stateManager := applySteps (stateManager e) (steps e) 0 \<rparr>)"
  using nextStepN_applySteps [of e 0 "length (steps e)"] assms by simp

lemma processedValues_append [simp]:
  "processedValues (xs @ ys) = processedValues xs @ processedValues ys"
  by (induction xs) (simp_all split: option.split)

lemma nodeValue_constructors [simp]:
  "nodeValue (ExecutionStep_call nv ln) = nv"
  "nodeValue (ExecutionStep_checkNull nv ln) = nv"
  "nodeValue (ExecutionStep_processNode nv ln) = nv"
  "nodeValue (ExecutionStep_recurseLeft nv ln) = nv"
  "nodeValue (ExecutionStep_recurseRight nv ln) = nv"
  "nodeValue (ExecutionStep_return nv ln b) = nv"
  by (simp_all add: step_constructor_defs)

lemma initial_index [simp]:
  "currentStepIndex (state (stateManager (initialize ty e))) = - 1"
  by (simp add: initialize_stateManager createInitialState_def)

lemma initial_output [simp]:
  "traversalOutput (state (stateManager (initialize ty e))) = []"
  by (simp add: initialize_stateManager createInitialState_def)

lemma run_initialized:
  "nextStepN (length (steps (initialize ty e))) (initialize ty e) =
     Some ((initialize ty e)
             \<lparr> stateManager :=
                 applySteps (stateManager (initialize ty e)) (steps (initialize ty e)) 0 \<rparr>)"
  by (rule run_to_end) simp

lemma output_after_run:
  "map_option (\<lambda>e. (isAtEnd e, traversalOutput (getState (stateManager e))))
     (nextStepN (length (steps (initialize ty e))) (initialize ty e))
   = Some (True, processedValues (getTraversalGenerator ty (tree e)))"
  unfolding run_initialized
  by (simp add: applySteps_output applySteps_index isAtEnd_def)

text \<open>
  Claim C3 (outputs on the default tree).  On the default 7-node tree, applying every
  generated step with \<open>nextStep\<close> succeeds, ends at the last step, and leaves the output
  \<open>[1,2,3,4,5,6,7]\<close> for inorder, \<open>[4,2,1,3,6,5,7]\<close> for preorder and
  \<open>[1,3,2,5,7,6,4]\<close> for postorder.
\<close>
theorem default_tree_outputs:
  "map_option (\<lambda>e. (isAtEnd e, traversalOutput (getState (stateManager e))))
     (nextStepN (length (steps (initialize ''inorder'' (ExecutionEngine_new createDefaultTree))))
        (initialize ''inorder'' (ExecutionEngine_new createDefaultTree)))
     = Some (True, [1, 2, 3, 4, 5, 6, 7])
   \<and> map_option (\<lambda>e. (isAtEnd e, traversalOutput (getState (stateManager e))))
     (nextStepN (length (steps (initialize ''preorder'' (ExecutionEngine_new createDefaultTree))))
        (initialize ''preorder'' (ExecutionEngine_new createDefaultTree)))
     = Some (True, [4, 2, 1, 3, 6, 5, 7])
   \<and> map_option (\<lambda>e. (isAtEnd e, traversalOutput (getState (stateManager e))))
     (nextStepN (length (steps (initialize ''postorder'' (ExecutionEngine_new createDefaultTree))))
        (initialize ''postorder'' (ExecutionEngine_new createDefaultTree)))
     = Some (True, [1, 3, 2, 5, 7, 6, 4])"
proof -
  have t: "tree (ExecutionEngine_new createDefaultTree) = createDefaultTree"
    by (simp add: ExecutionEngine_new_def createDefaultTree_def)
  have i: "processedValues (inorderSteps createDefaultTree) = [1, 2, 3, 4, 5, 6, 7]"
    by (simp add: createDefaultTree_def)
  have p: "processedValues (preorderSteps createDefaultTree) = [4, 2, 1, 3, 6, 5, 7]"
    by (simp add: createDefaultTree_def)
  have q: "processedValues (postorderSteps createDefaultTree) = [1, 3, 2, 5, 7, 6, 4]"
    by (simp add: createDefaultTree_def)
  show ?thesis
    unfolding output_after_run t
    by (simp add: getTraversalGenerator_cases i p q)
qed

subsection \<open>The traversal type after a reset\<close>

lemma nextStep_keeps_inorder:
  assumes "nextStep e = Inr (True, e')"
    and "traversalType (state (stateManager e)) = ''inorder''"
    and "\<forall>f \<in> set (callStack (state (stateManager e))). functionName f = ''inOrder''"
  shows "traversalType (state (stateManager e')) = ''inorder''
       \<and> (\<forall>f \<in> set (callStack (state (stateManager e'))). functionName f = ''inOrder'')"
  using assms
  by (auto simp: nextStep_True applyStep_state pushHistory_def getFunctionName_def
        dest: in_set_butlastD)

lemma nextStepN_keeps_inorder:
  "nextStepN n e = Some e' \<Longrightarrow>
   traversalType (state (stateManager e)) = ''inorder'' \<Longrightarrow>
   \<forall>f \<in> set (callStack (state (stateManager e))). functionName f = ''inOrder'' \<Longrightarrow>
   traversalType (state (stateManager e')) = ''inorder''
   \<and> (\<forall>f \<in> set (callStack (state (stateManager e'))). functionName f = ''inOrder'')"
proof (induction n arbitrary: e)
  case 0
  then show ?case by simp
next
  case (Suc n)
  from Suc.prems(1) obtain e1 where first: "nextStep e = Inr (True, e1)"
    and rest: "nextStepN n e1 = Some e'"
    by (auto split: sum.splits prod.splits bool.splits)
  from first Suc.prems(2,3)
  have "traversalType (state (stateManager e1)) = ''inorder''"
    and "\<forall>f \<in> set (callStack (state (stateManager e1))). functionName f = ''inOrder''"
    using nextStep_keeps_inorder by blast+
  with rest show ?case by (rule Suc.IH)
qed

text \<open>
  Claim C10 (reset and the traversal type).  After \<open>reset\<close> the state's traversal type is
  \<open>inorder\<close>, whatever type the engine was initialized with, while the step sequence
  stays the one generated for that type; and after any number of successful \<open>nextStep\<close>
  calls from there the type is still \<open>inorder\<close> and every frame on the call stack
  carries the function name \<open>inOrder\<close>.
\<close>
theorem reset_forgets_traversalType:
  "traversalType (getState (stateManager (reset e))) = ''inorder''
   \<and> steps (reset e) = steps e
   \<and> (\<forall>n e'. nextStepN n (reset e) = Some e' \<longrightarrow>
         traversalType (getState (stateManager e')) = ''inorder''
         \<and> (\<forall>f \<in> set (callStack (getState (stateManager e'))). functionName f = ''inOrder''))"
proof -
  have ty0: "traversalType (state (stateManager (reset e))) = ''inorder''"
    by (simp add: reset_stateManager createInitialState_def)
  have cs0: "\<forall>f \<in> set (callStack (state (stateManager (reset e)))). functionName f = ''inOrder''"
    by (simp add: reset_stateManager createInitialState_def)
  from ty0 cs0 show ?thesis
    using nextStepN_keeps_inorder by auto
qed

lemma tree_new [simp]:
  "tree (ExecutionEngine_new t) = (if t \<noteq> Null then t else createDefaultTree)"
  by (simp add: ExecutionEngine_new_def)

lemma reset_index [simp]: "currentStepIndex (state (stateManager (reset e))) = - 1"
  by (simp add: reset_stateManager createInitialState_def)

theorem reset_forgets_traversalType_witness:
  "\<exists>e'. nextStepN 1 (reset (initialize ''preorder'' (ExecutionEngine_new Null))) = Some e'
      \<and> steps e' = preorderSteps createDefaultTree
      \<and> traversalType (getState (stateManager e')) = ''inorder''
      \<and> callStack (getState (stateManager e')) \<noteq> []
      \<and> (\<forall>f \<in> set (callStack (getState (stateManager e'))). functionName f = ''inOrder'')"
proof -
  let ?E = "reset (initialize ''preorder'' (ExecutionEngine_new Null))"
  let ?E' = "?E \<lparr> stateManager :=
                  applySteps (stateManager ?E) (take 1 (drop 0 (steps ?E))) (int 0) \<rparr>"
  have st: "steps ?E = preorderSteps createDefaultTree"
    by (simp add: getTraversalGenerator_cases)
  have run: "nextStepN 1 ?E = Some ?E'"
    by (rule nextStepN_applySteps)
       (simp_all add: getTraversalGenerator_cases createDefaultTree_def)
  from reset_forgets_traversalType [of "initialize ''preorder'' (ExecutionEngine_new Null)"] run
  have inorder: "traversalType (getState (stateManager ?E')) = ''inorder''
      \<and> (\<forall>f \<in> set (callStack (getState (stateManager ?E'))). functionName f = ''inOrder'')"
    by blast
  have nonempty: "callStack (getState (stateManager ?E')) \<noteq> []"
    by (simp add: getTraversalGenerator_cases createDefaultTree_def applyStep_state
          step_constructor_defs)
  have "steps ?E' = preorderSteps createDefaultTree"
    using st by simp
  with run inorder nonempty show ?thesis
    by blast
qed


subsection \<open>An unrecognized traversal type\<close>

lemma withTraversalType_fields [simp]:
  "tree (withTraversalType ty e) = tree e"
  "steps (withTraversalType ty e) = steps e"
  "playIntervalId (withTraversalType ty e) = playIntervalId e"
  "state (stateManager (withTraversalType ty e)) = (state (stateManager e)) \<lparr> traversalType := ty \<rparr>"
  "history (stateManager (withTraversalType ty e)) =
     map (\<lambda>s. s \<lparr> traversalType := ty \<rparr>) (history (stateManager e))"
  by (simp_all add: withTraversalType_def)

lemma engine_eqI:
  fixes a b :: ExecutionEngine
  assumes "tree a = tree b" and "steps a = steps b" and "playIntervalId a = playIntervalId b"
    and "state (stateManager a) = state (stateManager b)"
    and "history (stateManager a) = history (stateManager b)"
  shows "a = b"
proof -
  from assms(4,5) have "stateManager a = stateManager b" by simp
  with assms(1-3) show ?thesis by simp
qed

lemma initialize_bogus:
  "withTraversalType ''inorder'' (initialize ''bogus'' e) = initialize ''inorder'' e"
  by (rule engine_eqI)
     (simp_all add: initialize_stateManager getTraversalGenerator_cases)

lemma typeIs_initialize: "typeIs ty (initialize ty e)"
  by (simp add: typeIs_def initialize_stateManager)

lemma nextStep_withTraversalType:
  assumes "getFunctionName (traversalType (state (stateManager e))) = getFunctionName ty"
  shows "nextStep (withTraversalType ty e) =
           (case nextStep e of
              Inl err \<Rightarrow> Inl err
            | Inr (b, e') \<Rightarrow> Inr (b, withTraversalType ty e'))"
proof -
  consider (stop) "int (length (steps e)) \<le> currentStepIndex (state (stateManager e)) + 1"
    | (err) "currentStepIndex (state (stateManager e)) + 1 < int (length (steps e))"
            "currentStepIndex (state (stateManager e)) + 1 < 0"
    | (go) "currentStepIndex (state (stateManager e)) + 1 < int (length (steps e))"
           "0 \<le> currentStepIndex (state (stateManager e)) + 1"
    by linarith
  then show ?thesis
  proof cases
    case stop
    then show ?thesis by (simp add: nextStep_def Let_def)
  next
    case err
    then show ?thesis by (simp add: nextStep_def Let_def)
  next
    case go
    let ?i = "currentStepIndex (state (stateManager e)) + 1"
    let ?s = "steps e ! nat ?i"
    have "withTraversalType ty (e \<lparr> stateManager := applyStep (pushHistory (stateManager e)) ?s ?i \<rparr>)
          = (withTraversalType ty e)
              \<lparr> stateManager := applyStep (pushHistory (stateManager (withTraversalType ty e))) ?s ?i \<rparr>"
      by (rule engine_eqI)
         (simp_all add: applyStep_state pushHistory_def assms split: option.split)
    with go show ?thesis
      by (simp add: nextStep_def Let_def)
  qed
qed


lemma previousStep_withTraversalType:
  "previousStep (withTraversalType ty e) =
     (fst (previousStep e), withTraversalType ty (snd (previousStep e)))"
proof (cases "history (stateManager e) = []")
  case True
  then show ?thesis
    by (auto simp: previousStep_def popHistory_def Let_def intro!: engine_eqI)
next
  case False
  then show ?thesis
    by (auto simp: previousStep_def popHistory_def Let_def last_map map_butlast
          intro!: engine_eqI)
qed

lemma typeIs_nextStep:
  assumes "typeIs ty e" and "nextStep e = Inr (b, e')"
  shows "typeIs ty e'"
proof (cases b)
  case True
  with assms show ?thesis
    by (auto simp: nextStep_True typeIs_def applyStep_state pushHistory_def)
next
  case False
  with assms show ?thesis by (simp add: nextStep_False)
qed

lemma typeIs_previousStep:
  assumes "typeIs ty e"
  shows "typeIs ty (snd (previousStep e))"
proof (cases "history (stateManager e) = []")
  case True
  with assms show ?thesis
    by (simp add: previousStep_def popHistory_def Let_def typeIs_def)
next
  case False
  then obtain hs h where "history (stateManager e) = hs @ [h]"
    by (metis rev_exhaust)
  with assms show ?thesis
    by (simp add: previousStep_def popHistory_def Let_def typeIs_def)
qed

lemma runOps_withTraversalType:
  assumes "getFunctionName ty' = getFunctionName ty"
  shows "typeIs ty' e \<Longrightarrow>
    (case runOps ops e of
       Inl err \<Rightarrow> runOps ops (withTraversalType ty e) = Inl err
     | Inr (bs, e') \<Rightarrow>
         runOps ops (withTraversalType ty e) = Inr (bs, withTraversalType ty e') \<and> typeIs ty' e')"
proof (induction ops arbitrary: e)
  case Nil
  then show ?case by simp
next
  case (Cons op ops)
  show ?case
  proof (cases op)
    case NextStep
    from Cons.prems assms
    have fn: "getFunctionName (traversalType (state (stateManager e))) = getFunctionName ty"
      by (simp add: typeIs_def)
    show ?thesis
    proof (cases "nextStep e")
      case (Inl err)
      with NextStep fn show ?thesis
        by (simp add: nextStep_withTraversalType)
    next
      case (Inr p)
      obtain b e1 where p: "p = (b, e1)" by (cases p)
      from Cons.prems Inr p have "typeIs ty' e1" by (simp add: typeIs_nextStep)
      then have "case runOps ops e1 of
                   Inl err \<Rightarrow> runOps ops (withTraversalType ty e1) = Inl err
                 | Inr (bs, e') \<Rightarrow>
                     runOps ops (withTraversalType ty e1) = Inr (bs, withTraversalType ty e')
                     \<and> typeIs ty' e'"
        by (rule Cons.IH)
      with NextStep Inr p fn show ?thesis
        by (simp add: nextStep_withTraversalType split: sum.splits prod.splits)
    qed
  next
    case PreviousStep
    obtain b e1 where p: "previousStep e = (b, e1)" by (cases "previousStep e")
    from Cons.prems p have "typeIs ty' e1"
      using typeIs_previousStep [of ty' e] by simp
    then have "case runOps ops e1 of
                 Inl err \<Rightarrow> runOps ops (withTraversalType ty e1) = Inl err
               | Inr (bs, e') \<Rightarrow>
                   runOps ops (withTraversalType ty e1) = Inr (bs, withTraversalType ty e')
                   \<and> typeIs ty' e'"
      by (rule Cons.IH)
    with PreviousStep p show ?thesis
      by (simp add: previousStep_withTraversalType split: sum.splits prod.splits)
  qed
qed

text \<open>
  Claim C6 as stated fails: \<open>initialize\<close> stores the tag it was given, so the state after
  initializing with \<open>bogus\<close> holds the traversal type \<open>bogus\<close>, and \<open>statesEqual\<close>
  tells it apart from the state after initializing with \<open>inorder\<close>.
\<close>
theorem bogus_differs_from_inorder:
  "traversalType (getState (stateManager (initialize ''bogus'' (ExecutionEngine_new createDefaultTree))))
     = ''bogus''
   \<and> traversalType (getState (stateManager (initialize ''inorder'' (ExecutionEngine_new createDefaultTree))))
     = ''inorder''
   \<and> \<not> statesEqual
         (getState (stateManager (initialize ''bogus'' (ExecutionEngine_new createDefaultTree))))
         (getState (stateManager (initialize ''inorder'' (ExecutionEngine_new createDefaultTree))))"
  by (simp add: initialize_stateManager statesEqual_def)

text \<open>
  Claim C6, amended.  Initializing with \<open>bogus\<close> generates the same step sequence as
  initializing with \<open>inorder\<close>, and the two engines agree in everything but the stored
  traversal type, which is \<open>bogus\<close> in the one and \<open>inorder\<close> in the other, in the live
  state and in every snapshot.  This stays so under any sequence of \<open>nextStep\<close> and
  \<open>previousStep\<close> calls, which return the same results in both runs.
\<close>
theorem bogus_like_inorder_up_to_type:
  "steps (initialize ''bogus'' e) = steps (initialize ''inorder'' e)
   \<and> withTraversalType ''inorder'' (initialize ''bogus'' e) = initialize ''inorder'' e
   \<and> (case runOps ops (initialize ''bogus'' e) of
         Inl err \<Rightarrow> runOps ops (initialize ''inorder'' e) = Inl err
       | Inr (bs, e') \<Rightarrow>
           runOps ops (initialize ''inorder'' e) = Inr (bs, withTraversalType ''inorder'' e')
           \<and> traversalType (getState (stateManager e')) = ''bogus'')"
proof -
  have fn: "getFunctionName ''bogus'' = getFunctionName ''inorder''"
    by (simp add: getFunctionName_def)
  have "typeIs ''bogus'' (initialize ''bogus'' e)"
    by (rule typeIs_initialize)
  with fn have "case runOps ops (initialize ''bogus'' e) of
       Inl err \<Rightarrow> runOps ops (withTraversalType ''inorder'' (initialize ''bogus'' e)) = Inl err
     | Inr (bs, e') \<Rightarrow>
         runOps ops (withTraversalType ''inorder'' (initialize ''bogus'' e))
           = Inr (bs, withTraversalType ''inorder'' e')
         \<and> typeIs ''bogus'' e'"
    by (rule runOps_withTraversalType)
  then show ?thesis
    by (simp add: initialize_bogus getTraversalGenerator_cases typeIs_def
          split: sum.splits prod.splits)
qed

subsection \<open>Concrete runs on the default tree\<close>

theorem undo_exactness_witness:
  "initialized (initialize ''inorder'' (ExecutionEngine_new Null))
   \<and> 3 \<le> length (steps (initialize ''inorder'' (ExecutionEngine_new Null)))
   \<and> (\<exists>e'. nextStepN 3 (initialize ''inorder'' (ExecutionEngine_new Null)) = Some e'
         \<and> currentStepIndex (getState (stateManager e')) = 2
         \<and> fst (previousStepN 3 e') = True
         \<and> statesEqual (getState (stateManager (snd (previousStepN 3 e'))))
             (getState (stateManager (initialize ''inorder'' (ExecutionEngine_new Null)))))"
proof -
  let ?E = "initialize ''inorder'' (ExecutionEngine_new Null)"
  let ?E' = "?E \<lparr> stateManager :=
                  applySteps (stateManager ?E) (take 3 (drop 0 (steps ?E))) (int 0) \<rparr>"
  have i: "initialized ?E"
    by (rule first_initialize)
  have len: "3 \<le> length (steps ?E)"
    by (simp add: getTraversalGenerator_cases createDefaultTree_def)
  have run: "nextStepN 3 ?E = Some ?E'"
    by (rule nextStepN_applySteps)
       (simp_all add: getTraversalGenerator_cases createDefaultTree_def)
  have idx: "currentStepIndex (getState (stateManager ?E')) = 2"
    by (simp add: applyStep_state getTraversalGenerator_cases createDefaultTree_def)
  from undo_exactness [OF i len run] i len run idx show ?thesis
    by blast
qed

theorem synchronization_witness:
  "\<exists>e'. nextStep (initialize ''inorder'' (ExecutionEngine_new Null)) = Inr (True, e')
      \<and> getCurrentStep e' = Some (ExecutionStep_call (Some 4) 1)
      \<and> highlightedLine (getState (stateManager e')) = 1
      \<and> map_of (nodeStates (getState (stateManager e'))) 4 = Some PROCESSING"
proof -
  let ?E = "initialize ''inorder'' (ExecutionEngine_new Null)"
  have st: "steps ?E ! nat (currentStepIndex (getState (stateManager ?E)) + 1)
              = ExecutionStep_call (Some 4) 1"
    by (simp add: getTraversalGenerator_cases createDefaultTree_def)
  have "\<exists>e'. nextStep ?E = Inr (True, e')"
    by (simp add: nextStep_True getTraversalGenerator_cases createDefaultTree_def)
  then obtain e' where next1: "nextStep ?E = Inr (True, e')" ..
  from synchronization [OF next1] st
  have "getCurrentStep e' = Some (ExecutionStep_call (Some 4) 1)"
    and "highlightedLine (getState (stateManager e')) = codeLine (ExecutionStep_call (Some 4) 1)"
    and "\<forall>v. nodeValue (ExecutionStep_call (Some 4) 1) = Some v \<longrightarrow>
           map_of (nodeStates (getState (stateManager e'))) v
             = Some (nodeState (ExecutionStep_call (Some 4) 1))"
    by auto
  then have "getCurrentStep e' = Some (ExecutionStep_call (Some 4) 1)"
    and "highlightedLine (getState (stateManager e')) = 1"
    and "map_of (nodeStates (getState (stateManager e'))) 4 = Some PROCESSING"
    by (simp_all add: ExecutionStep_call_def)
  with next1 show ?thesis by blast
qed

text \<open>
  Reset on the default tree, after an inorder initialization and five forward steps: the
  seven values 4, 2, 1, 3, 6, 5, 7 are tracked, each UNVISITED, and nothing else is.
\<close>

theorem reset_completeness_witness:
  "\<exists>e. nextStepN 5 (initialize ''inorder'' (ExecutionEngine_new createDefaultTree)) = Some e
      \<and> history (stateManager e) \<noteq> []
      \<and> callStack (getState (stateManager e)) \<noteq> []
      \<and> map_of (nodeStates (getState (stateManager e))) 4 = Some PROCESSING
      \<and> currentStepIndex (getState (stateManager (reset e))) = - 1
      \<and> callStack (getState (stateManager (reset e))) = []
      \<and> nodeStates (getState (stateManager (reset e)))
          = [(4, UNVISITED), (2, UNVISITED), (1, UNVISITED), (3, UNVISITED),
             (6, UNVISITED), (5, UNVISITED), (7, UNVISITED)]
      \<and> map (map_of (nodeStates (getState (stateManager (reset e))))) [0, 1, 2, 3, 4, 5, 6, 7, 8]
          = [None, Some UNVISITED, Some UNVISITED, Some UNVISITED, Some UNVISITED,
             Some UNVISITED, Some UNVISITED, Some UNVISITED, None]
      \<and> highlightedLine (getState (stateManager (reset e))) = 0
      \<and> traversalOutput (getState (stateManager (reset e))) = []
      \<and> history (stateManager (reset e)) = []
      \<and> tree (reset e) = createDefaultTree
      \<and> steps (reset e) = inorderSteps createDefaultTree"
proof -
  let ?E = "initialize ''inorder'' (ExecutionEngine_new createDefaultTree)"
  define E' where
    "E' = ?E \<lparr> stateManager :=
                 applySteps (stateManager ?E) (take 5 (drop 0 (steps ?E))) (int 0) \<rparr>"
  have t: "createDefaultTree \<noteq> Null"
    by (simp add: createDefaultTree_def)
  have run: "nextStepN 5 ?E = Some E'"
    unfolding E'_def
    by (rule nextStepN_applySteps)
       (simp_all add: getTraversalGenerator_cases createDefaultTree_def)
  have tr: "tree E' = createDefaultTree"
    using t by (simp add: E'_def)
  have st: "steps E' = inorderSteps createDefaultTree"
    using t by (simp add: E'_def getTraversalGenerator_cases)
  have five: "take 5 (inorderSteps createDefaultTree)
      = [ExecutionStep_call (Some 4) 1, ExecutionStep_checkNull (Some 4) 2,
         ExecutionStep_recurseLeft (Some 4) 3, ExecutionStep_call (Some 2) 1,
         ExecutionStep_checkNull (Some 2) 2]"
    by (simp add: createDefaultTree_def)
  have sm: "stateManager E'
      = applySteps (stateManager ?E)
          [ExecutionStep_call (Some 4) 1, ExecutionStep_checkNull (Some 4) 2,
           ExecutionStep_recurseLeft (Some 4) 3, ExecutionStep_call (Some 2) 1,
           ExecutionStep_checkNull (Some 2) 2] 0"
    using t five by (simp add: E'_def getTraversalGenerator_cases)
  have b1: "history (stateManager E') \<noteq> []"
    by (simp add: sm pushHistory_def)
  have b2: "callStack (getState (stateManager E')) \<noteq> []"
    by (simp add: sm applyStep_state step_constructor_defs pushHistory_def)
  have b3: "map_of (nodeStates (getState (stateManager E'))) 4 = Some PROCESSING"
    by (simp add: sm applyStep_state step_constructor_defs update_conv' pushHistory_def)
  have ns: "nodeStates (getState (stateManager (reset E')))
          = [(4, UNVISITED), (2, UNVISITED), (1, UNVISITED), (3, UNVISITED),
             (6, UNVISITED), (5, UNVISITED), (7, UNVISITED)]"
    by (simp add: reset_stateManager tr createInitialState_def createDefaultTree_def)
  have vals: "treeValues createDefaultTree = {4, 6, 7, 5, 2, 3, 1}"
    by (simp add: createDefaultTree_def)
  note rc = reset_completeness [of E', unfolded tr st vals]
  from rc have a1: "currentStepIndex (getState (stateManager (reset E'))) = - 1" by blast
  from rc have a2: "callStack (getState (stateManager (reset E'))) = []" by blast
  from rc have m: "map_of (nodeStates (getState (stateManager (reset E')))) v
      = (if v \<in> {4, 6, 7, 5, 2, 3, 1} then Some UNVISITED else None)" for v
    by blast
  have a3: "map (map_of (nodeStates (getState (stateManager (reset E'))))) [0, 1, 2, 3, 4, 5, 6, 7, 8]
       = [None, Some UNVISITED, Some UNVISITED, Some UNVISITED, Some UNVISITED,
          Some UNVISITED, Some UNVISITED, Some UNVISITED, None]"
    unfolding list.map m by simp
  from rc have a4: "highlightedLine (getState (stateManager (reset E'))) = 0" by blast
  from rc have a5: "traversalOutput (getState (stateManager (reset E'))) = []" by blast
  from rc have a6: "history (stateManager (reset E')) = []" by blast
  from rc have a7: "tree (reset E') = createDefaultTree" by blast
  from rc have a8: "steps (reset E') = inorderSteps createDefaultTree" by blast
  show ?thesis
    by (rule exI [of _ E']) (intro conjI run b1 b2 b3 a1 a2 ns a3 a4 a5 a6 a7 a8)
qed

end
